theory Spec2Isabelle
  imports Main "HOL-Library.Sublist"
begin

section \<open>Python primitives used by \<open>cust_invoice_rename.py\<close>\<close>

text \<open>
  Exceptions are values. \<open>OSError\<close> stands for every failure of \<open>open\<close>,
  \<open>os.listdir\<close> and \<open>Path.rename\<close> (missing file, permission denied, existing
  destination), \<open>UnicodeDecodeError\<close> for a \<open>readline\<close> on non-text content and
  \<open>IndexError\<close> for a list subscript out of range.
\<close>

datatype exn = OSError | UnicodeDecodeError | IndexError

text \<open>\<open>sub in s\<close> on Python strings: \<open>sub\<close> occurs in \<open>s\<close> as a contiguous run.\<close>

fun str_in :: "string \<Rightarrow> string \<Rightarrow> bool" where
  "str_in sub [] = (sub = [])"
| "str_in sub (c # cs) = (prefix sub (c # cs) \<or> str_in sub cs)"

text \<open>\<open>s.split(c)\<close> for a one-character separator: never empty, one more piece than
  there are separators.\<close>

fun split_chr :: "char \<Rightarrow> string \<Rightarrow> string list" where
  "split_chr c [] = [[]]"
| "split_chr c (x # xs) =
     (if x = c then [] # split_chr c xs
      else (case split_chr c xs of [] \<Rightarrow> [[x]] | p # ps \<Rightarrow> (x # p) # ps))"

text \<open>\<open>xs[i]\<close> for a non-negative literal index: raises \<open>IndexError\<close> out of range.\<close>

definition subscript :: "'a list \<Rightarrow> nat \<Rightarrow> exn + 'a" where
  "subscript xs i = (if i < length xs then Inr (xs ! i) else Inl IndexError)"

text \<open>\<open>s.replace(old, "")\<close>: every non-overlapping occurrence of \<open>old\<close>, from the left, is
  removed; with an empty \<open>old\<close> nothing changes.\<close>

function remove_all :: "string \<Rightarrow> string \<Rightarrow> string" where
  "remove_all old [] = []"
| "remove_all old (c # cs) =
     (if old \<noteq> [] \<and> prefix old (c # cs)
      then remove_all old (drop (length old) (c # cs))
      else c # remove_all old cs)"
  by pat_completeness auto
termination
  by (relation "measure (\<lambda>(old, s). length s)") auto

section \<open>The world the program runs in\<close>

text \<open>
  The filesystem and the wildcard matcher are outside the repository, so the program is
  modelled over any implementation of the four primitives it calls. \<open>os_open\<close> is
  \<open>open(fn, 'r')\<close>: it raises, or gives the successive results of \<open>readline()\<close>, each a
  line or an exception; past the end of that list \<open>readline()\<close> returns the empty string.
  \<open>os_rename\<close> is what \<open>Path.rename\<close> hands to the operating system, on the string forms
  of source and target. \<open>os_fnmatch name pattern\<close> is \<open>fnmatch.fnmatch\<close>.
\<close>

record 'fs os =
  os_open :: "'fs \<Rightarrow> string \<Rightarrow> exn + (exn + string) list"
  os_listdir :: "'fs \<Rightarrow> string \<Rightarrow> exn + string list"
  os_rename :: "'fs \<Rightarrow> string \<Rightarrow> string \<Rightarrow> exn + 'fs"
  os_fnmatch :: "string \<Rightarrow> string \<Rightarrow> bool"

text \<open>The state threaded through the program: the filesystem and the lines printed so far
  (one entry for each \<open>print\<close> call, oldest first).\<close>

record 'fs world =
  w_fs :: "'fs"
  w_out :: "string list"

definition print :: "string \<Rightarrow> 'fs world \<Rightarrow> 'fs world" where
  "print s w = w\<lparr>w_out := w_out w @ [s]\<rparr>"

definition print_if :: "bool \<Rightarrow> string \<Rightarrow> 'fs world \<Rightarrow> 'fs world" where
  "print_if b s w = (if b then print s w else w)"

section \<open>Content scanner\<close>

definition CUST_ACCT_SEARCH_STR :: string where
  "CUST_ACCT_SEARCH_STR = ''Customer Acct Number''"

definition END_SEEK_MARKER :: string where
  "END_SEEK_MARKER = ''</ReferenceNumbers>''"

text \<open>\<open>data.split(">")[1].split("<")[0]\<close>.\<close>

definition extract_name :: "string \<Rightarrow> exn + string" where
  "extract_name data =
     (case subscript (split_chr CHR ''>'' data) 1 of
        Inl e \<Rightarrow> Inl e
      | Inr s \<Rightarrow> subscript (split_chr CHR ''<'' s) 0)"

text \<open>
  What one pass of the \<open>while data:\<close> loop decides once \<open>data\<close> is a non-empty line. The
  \<open>break\<close> of the stop marker sits inside \<open>if (args.verbose)\<close>, so it is taken in verbose
  mode only; otherwise control falls through to the search-marker test.
\<close>

datatype scan_step = Break string "string list" | Raise exn | Next

definition scan_line :: "bool \<Rightarrow> string \<Rightarrow> scan_step" where
  "scan_line verbose data =
     (if str_in END_SEEK_MARKER data \<and> verbose
      then Break [] [''reached '' @ END_SEEK_MARKER @ '' without finding customer name'']
      else if str_in CUST_ACCT_SEARCH_STR data
      then (case extract_name data of Inl e \<Rightarrow> Raise e | Inr s \<Rightarrow> Break s [])
      else Next)"

text \<open>
  The body of the \<open>with\<close> block, on the remaining \<open>readline()\<close> results: the value left in
  \<open>cust_name\<close> and the lines printed, or the exception that leaves the block. Both
  \<open>data = infile.readline()\<close> statements are the step to the tail of the list.
\<close>

fun scan_lines :: "bool \<Rightarrow> (exn + string) list \<Rightarrow> exn + (string \<times> string list)" where
  "scan_lines verbose [] = Inr ([], [])"
| "scan_lines verbose (Inl e # rest) = Inl e"
| "scan_lines verbose (Inr data # rest) =
     (if data = [] then Inr ([], [])
      else (case scan_line verbose data of
              Break s msgs \<Rightarrow> Inr (s, msgs)
            | Raise e \<Rightarrow> Inl e
            | Next \<Rightarrow> scan_lines verbose rest))"

text \<open>The \<open>try\<close> block of \<open>file_load_and_search\<close>: \<open>open\<close>, then the loop.\<close>

definition try_scan :: "'fs os \<Rightarrow> bool \<Rightarrow> string \<Rightarrow> 'fs \<Rightarrow> exn + (string \<times> string list)" where
  "try_scan os verbose fn fs =
     (case os_open os fs fn of
        Inl e \<Rightarrow> Inl e
      | Inr infile \<Rightarrow> scan_lines verbose infile)"

text \<open>\<open>file_load_and_search(args, fn)\<close>: the bare \<open>except:\<close> catches every exception of the
  block, leaving \<open>cust_name\<close> at its initial empty value.\<close>

definition file_load_and_search ::
  "'fs os \<Rightarrow> bool \<Rightarrow> string \<Rightarrow> 'fs world \<Rightarrow> string \<times> 'fs world" where
  "file_load_and_search os verbose fn w =
     (let (cust_name, w1) =
            (case try_scan os verbose fn (w_fs w) of
               Inl e \<Rightarrow> ([], print_if verbose (''bad filename '' @ fn @ '', skipping'') w)
             | Inr (s, msgs) \<Rightarrow> (s, w\<lparr>w_out := w_out w @ msgs\<rparr>))
      in (cust_name, print_if verbose (''Customer Name Found: '' @ cust_name) w1))"

section \<open>Paths\<close>

text \<open>
  \<open>pathlib.Path\<close> in its POSIX flavour (the only separator is the slash, there is no
  drive), as of Python 3.10: a path is its root (empty, one slash or two) and its
  components, from which empty components and single dots are dropped when the string is
  parsed.
\<close>

record ppath =
  p_root :: string
  p_parts :: "string list"

definition splitroot :: "string \<Rightarrow> string \<times> string" where
  "splitroot part =
     (if part \<noteq> [] \<and> hd part = CHR ''/''
      then (let stripped = dropWhile (\<lambda>c. c = CHR ''/'') part
            in (if length part - length stripped = 2 then ''//'' else ''/'', stripped))
      else ([], part))"

definition Path :: "string \<Rightarrow> ppath" where
  "Path s =
     (let (root, rel) = splitroot s
      in \<lparr>p_root = root,
          p_parts = filter (\<lambda>x. x \<noteq> [] \<and> x \<noteq> ''.'') (split_chr CHR ''/'' rel)\<rparr>)"

text \<open>\<open>str(p)\<close>.\<close>

fun join_sep :: "string list \<Rightarrow> string" where
  "join_sep [] = []"
| "join_sep [x] = x"
| "join_sep (x # y # ys) = x @ ''/'' @ join_sep (y # ys)"

definition path_str :: "ppath \<Rightarrow> string" where
  "path_str p =
     (let s = p_root p @ join_sep (p_parts p) in if s = [] then ''.'' else s)"

text \<open>\<open>p.name\<close>, \<open>p.parent\<close>, \<open>p.suffix\<close> and \<open>p.stem\<close>. The suffix starts at the last dot
  of the name, unless that dot is the first or the last character of the name.\<close>

definition path_name :: "ppath \<Rightarrow> string" where
  "path_name p = (if p_parts p = [] then [] else last (p_parts p))"

definition path_parent :: "ppath \<Rightarrow> ppath" where
  "path_parent p = p\<lparr>p_parts := butlast (p_parts p)\<rparr>"

text \<open>\<open>s.rfind('.')\<close>: the index of the last dot, \<open>None\<close> for Python's \<open>-1\<close>.\<close>

fun rfind_dot :: "string \<Rightarrow> nat option" where
  "rfind_dot [] = None"
| "rfind_dot (c # cs) =
     (case rfind_dot cs of
        Some i \<Rightarrow> Some (Suc i)
      | None \<Rightarrow> if c = CHR ''.'' then Some 0 else None)"

definition name_suffix :: "string \<Rightarrow> string" where
  "name_suffix name =
     (case rfind_dot name of
        None \<Rightarrow> []
      | Some i \<Rightarrow> if 0 < i \<and> i < length name - 1 then drop i name else [])"

definition name_stem :: "string \<Rightarrow> string" where
  "name_stem name =
     (case rfind_dot name of
        None \<Rightarrow> name
      | Some i \<Rightarrow> if 0 < i \<and> i < length name - 1 then take i name else name)"

definition path_suffix :: "ppath \<Rightarrow> string" where
  "path_suffix p = name_suffix (path_name p)"

definition path_stem :: "ppath \<Rightarrow> string" where
  "path_stem p = name_stem (path_name p)"

text \<open>\<open>Path(p, s)\<close> for a path \<open>p\<close> and a string \<open>s\<close>: a rooted \<open>s\<close> replaces \<open>p\<close>, any other
  \<open>s\<close> adds its components to those of \<open>p\<close>.\<close>

definition path_join :: "ppath \<Rightarrow> string \<Rightarrow> ppath" where
  "path_join p s =
     (let q = Path s
      in if p_root q \<noteq> [] then q
         else \<lparr>p_root = p_root p, p_parts = p_parts p @ p_parts q\<rparr>)"

section \<open>Renamer\<close>

text \<open>\<open>file_rename(args, fn, name)\<close>: the new world, or the exception of \<open>Path.rename\<close>,
  which nothing in the function catches. The guard tests \<open>name\<close> against the whole string
  \<open>fn\<close>.\<close>

definition new_basename :: "string \<Rightarrow> string \<Rightarrow> string" where
  "new_basename fn name = name @ ''_'' @ path_stem (Path fn) @ path_suffix (Path fn)"

definition rename_target :: "string \<Rightarrow> string \<Rightarrow> ppath" where
  "rename_target fn name = path_join (path_parent (Path fn)) (new_basename fn name)"

definition file_rename ::
  "'fs os \<Rightarrow> bool \<Rightarrow> string \<Rightarrow> string \<Rightarrow> 'fs world \<Rightarrow> exn + 'fs world" where
  "file_rename os verbose fn name w =
     (if str_in name fn
      then Inr (print_if verbose (''Customer name already in filename, skipping '' @ fn) w)
      else (case os_rename os (w_fs w) (path_str (Path fn)) (path_str (rename_target fn name)) of
              Inl e \<Rightarrow> Inl e
            | Inr fs' \<Rightarrow>
                Inr (print_if verbose (''new file name = '' @ new_basename fn name)
                       (w\<lparr>w_fs := fs'\<rparr>))))"

section \<open>Path resolver and command line\<close>

text \<open>The \<open>for f in os.listdir(corrected_path)\<close> loop of \<open>resolve_windows_path\<close>.\<close>

fun resolve_loop ::
  "'fs os \<Rightarrow> bool \<Rightarrow> string \<Rightarrow> string \<Rightarrow> string list \<Rightarrow> string list \<Rightarrow> 'fs world
     \<Rightarrow> string list \<times> 'fs world" where
  "resolve_loop os verbose corrected_path pat [] files w = (files, w)"
| "resolve_loop os verbose corrected_path pat (f # fs) files w =
     (if os_fnmatch os f pat
      then resolve_loop os verbose corrected_path pat fs (files @ [corrected_path @ f])
             (print_if verbose (''Appending '' @ f @ '' to list to process'') w)
      else resolve_loop os verbose corrected_path pat fs files w)"

text \<open>\<open>resolve_windows_path(args, path)\<close>: the list of files, or the exception of
  \<open>os.listdir\<close> with the world it leaves.\<close>

definition resolve_windows_path ::
  "'fs os \<Rightarrow> bool \<Rightarrow> string \<Rightarrow> 'fs world \<Rightarrow> exn \<times> 'fs world + string list \<times> 'fs world" where
  "resolve_windows_path os verbose path w =
     (let file_info = Path path;
          match_search_info = path_stem file_info @ path_suffix file_info;
          corrected_path0 = remove_all match_search_info path;
          corrected_path = (if corrected_path0 = [] then ''.'' else corrected_path0);
          w1 = print_if verbose (''Seaching '' @ corrected_path) w
      in (case os_listdir os (w_fs w1) corrected_path of
            Inl e \<Rightarrow> Inl (e, w1)
          | Inr names \<Rightarrow> Inr (resolve_loop os verbose corrected_path match_search_info names [] w1)))"

text \<open>How the process ends: \<open>exit(n)\<close>, or an exception nothing caught (the interpreter
  then prints a traceback and the exit status is not 0).\<close>

datatype outcome = Exit int | Uncaught exn

text \<open>\<open>read_cli()\<close> after \<open>argparse\<close> has produced \<open>args.files\<close> and \<open>args.verbose\<close>: the
  end of the process, or the files to work on.\<close>

definition read_cli ::
  "'fs os \<Rightarrow> string list \<Rightarrow> bool \<Rightarrow> 'fs world \<Rightarrow> outcome \<times> 'fs world + string list \<times> 'fs world" where
  "read_cli os files verbose w =
     (if length files \<le> 0
      then Inl (Exit (- 1), print (''No files passed at command-line'' @ [CHR 0x0A] @ ''Exiting -1'') w)
      else if length files = 1 \<and> str_in ''*'' (files ! 0)
      then (case resolve_windows_path os verbose (files ! 0) w of
              Inl (e, w') \<Rightarrow> Inl (Uncaught e, w')
            | Inr r \<Rightarrow> Inr r)
      else Inr (files, w))"

section \<open>Driver\<close>

text \<open>
  The \<open>for fn in args.files\<close> loop, over the renamer it calls (\<open>file_rename(args, ., .)\<close> in
  the program): the exception that left the loop, if any, and the world at that point.
\<close>

fun main_loop_with ::
  "(string \<Rightarrow> string \<Rightarrow> 'fs world \<Rightarrow> exn + 'fs world) \<Rightarrow> 'fs os \<Rightarrow> bool \<Rightarrow> string list
     \<Rightarrow> 'fs world \<Rightarrow> exn option \<times> 'fs world" where
  "main_loop_with rn os verbose [] w = (None, w)"
| "main_loop_with rn os verbose (fn # fns) w =
     (let (cust_name, w1) = file_load_and_search os verbose fn w
      in if cust_name = []
         then main_loop_with rn os verbose fns
                (print_if verbose (''No customer information read from file '' @ fn) w1)
         else (case rn fn cust_name w1 of
                 Inl e \<Rightarrow> (Some e, w1)
               | Inr w2 \<Rightarrow> main_loop_with rn os verbose fns w2))"

definition main_loop :: "'fs os \<Rightarrow> bool \<Rightarrow> string list \<Rightarrow> 'fs world \<Rightarrow> exn option \<times> 'fs world" where
  "main_loop os verbose fns w = main_loop_with (file_rename os verbose) os verbose fns w"

text \<open>The \<open>__main__\<close> block, started on filesystem \<open>fs0\<close> with nothing printed yet.\<close>

definition main :: "'fs os \<Rightarrow> string list \<Rightarrow> bool \<Rightarrow> 'fs \<Rightarrow> outcome \<times> 'fs world" where
  "main os files verbose fs0 =
     (case read_cli os files verbose \<lparr>w_fs = fs0, w_out = []\<rparr> of
        Inl r \<Rightarrow> r
      | Inr (files', w) \<Rightarrow>
          (let w1 = (if verbose
                     then w\<lparr>w_out := w_out w @ [CHR 0x0A # ''Files to be parsed:'']
                                        @ map (\<lambda>f. CHR 0x09 # f) files'\<rparr>
                     else w)
           in (case main_loop os verbose files' w1 of
                 (Some e, w2) \<Rightarrow> (Uncaught e, w2)
               | (None, w2) \<Rightarrow> (Exit 0, print_if verbose ''Completed, Exiting'' w2))))"

section \<open>A flat file table to run the program on\<close>

text \<open>
  One implementation of the primitives, for running the program on concrete inputs: the
  filesystem is a table from path strings to file contents (the \<open>readline()\<close> results of
  the file). Renaming onto an existing path depends on the platform: it replaces the
  destination (\<open>Overwrite\<close>, POSIX) or fails (\<open>Refuse\<close>). The matcher covers patterns of
  literal characters, \<open>*\<close> and \<open>?\<close>.
\<close>

type_synonym ftab = "(string \<times> (exn + string) list) list"

datatype collision = Overwrite | Refuse

definition flat_open :: "ftab \<Rightarrow> string \<Rightarrow> exn + (exn + string) list" where
  "flat_open tab fn = (case map_of tab fn of None \<Rightarrow> Inl OSError | Some c \<Rightarrow> Inr c)"

definition flat_rename :: "collision \<Rightarrow> ftab \<Rightarrow> string \<Rightarrow> string \<Rightarrow> exn + ftab" where
  "flat_rename pol tab src dst =
     (if map_of tab src = None then Inl OSError
      else if src = dst then Inr tab
      else if map_of tab dst \<noteq> None \<and> pol = Refuse then Inl OSError
      else Inr (map (\<lambda>(k, v). if k = src then (dst, v) else (k, v))
                  (filter (\<lambda>(k, v). k \<noteq> dst) tab)))"

definition flat_listdir :: "ftab \<Rightarrow> string \<Rightarrow> exn + string list" where
  "flat_listdir tab dir =
     (let pre = (if dir = ''.'' then [] else if last dir = CHR ''/'' then dir else dir @ ''/'')
      in Inr (filter (\<lambda>n. CHR ''/'' \<notin> set n)
                (map (\<lambda>(k, v). drop (length pre) k) (filter (\<lambda>(k, v). prefix pre k) tab))))"

fun glob_match :: "string \<Rightarrow> string \<Rightarrow> bool" where
  "glob_match [] [] = True"
| "glob_match (c # cs) [] = False"
| "glob_match [] (p # ps) = (p = CHR ''*'' \<and> glob_match [] ps)"
| "glob_match (c # cs) (p # ps) =
     (if p = CHR ''*'' then glob_match (c # cs) ps \<or> glob_match cs (p # ps)
      else (p = CHR ''?'' \<or> p = c) \<and> glob_match cs ps)"

definition flat_os :: "collision \<Rightarrow> ftab os" where
  "flat_os pol =
     \<lparr>os_open = flat_open, os_listdir = flat_listdir, os_rename = flat_rename pol,
      os_fnmatch = glob_match\<rparr>"

section \<open>The specification's wording\<close>

text \<open>The token as the specification words it: the substring strictly between the first
  \<open>>\<close> of the line and the next \<open><\<close> after it (to the end of the line when no \<open><\<close>
  follows).\<close>

definition token_between :: "string \<Rightarrow> string" where
  "token_between line =
     takeWhile (\<lambda>x. x \<noteq> CHR ''<'') (tl (dropWhile (\<lambda>x. x \<noteq> CHR ''>'') line))"

section \<open>Sequences of renames\<close>


section \<open>Sample inputs\<close>

text \<open>A line as \<open>readline()\<close> returns it, with its newline.\<close>

definition eol :: "string \<Rightarrow> string" where
  "eol s = s @ [CHR 0x0A]"

definition invoice_acme :: "(exn + string) list" where
  "invoice_acme =
     [Inr (eol ''<Invoice>''), Inr (eol ''<Ref Customer Acct Number>ACME</Ref>''),
      Inr (eol ''</ReferenceNumbers>'')]"

definition invoice_late :: "(exn + string) list" where
  "invoice_late =
     [Inr (eol ''</ReferenceNumbers>''), Inr (eol ''<Ref Customer Acct Number>BOB</Ref>'')]"

definition invoice_adjacent :: "(exn + string) list" where
  "invoice_adjacent =
     [Inr (eol ''<Invoice>''), Inr (eol ''<Ref Customer Acct Number></Ref>'')]"

definition invoice_nested :: "(exn + string) list" where
  "invoice_nested = [Inr (eol ''<Ref Customer Acct Number>a>b</Ref>'')]"

definition invoice_binary :: "(exn + string) list" where
  "invoice_binary = [Inr (eol ''<Invoice>''), Inl UnicodeDecodeError]"

definition invoice_bare :: "(exn + string) list" where
  "invoice_bare = [Inr (eol ''Invoice''), Inr (eol ''Customer Acct Number: ACME'')]"

section \<open>Strings\<close>


lemma str_in_iff: "str_in sub s \<longleftrightarrow> (\<exists>p q. s = p @ sub @ q)"
proof (induction s)
  case Nil
  then show ?case by auto
next
  case (Cons c cs)
  show ?case
  proof
    assume "str_in sub (c # cs)"
    then consider "prefix sub (c # cs)" | "str_in sub cs" by auto
    then show "\<exists>p q. c # cs = p @ sub @ q"
    proof cases
      case 1
      then obtain q where "c # cs = sub @ q" by (auto simp: prefix_def)
      then have "c # cs = [] @ sub @ q" by simp
      then show ?thesis by blast
    next
      case 2
      with Cons.IH obtain p q where "cs = p @ sub @ q" by blast
      then have "c # cs = (c # p) @ sub @ q" by simp
      then show ?thesis by blast
    qed
  next
    assume "\<exists>p q. c # cs = p @ sub @ q"
    then obtain p q where pq: "c # cs = p @ sub @ q" by blast
    show "str_in sub (c # cs)"
    proof (cases p)
      case Nil
      with pq have "prefix sub (c # cs)" by (simp add: prefix_def)
      then show ?thesis by simp
    next
      case (Cons a p')
      with pq have "cs = p' @ sub @ q" by simp
      with Cons.IH have "str_in sub cs" by blast
      then show ?thesis by simp
    qed
  qed
qed

lemma str_in_set: "str_in sub s \<Longrightarrow> set sub \<subseteq> set s"
  by (auto simp: str_in_iff)

lemma split_chr_ne [simp]: "split_chr c s \<noteq> []"
  by (induction s) (auto split: list.splits)

lemma hd_split_chr: "hd (split_chr c s) = takeWhile (\<lambda>x. x \<noteq> c) s"
  by (induction s) (auto split: list.splits)

lemma split_chr_nth0: "split_chr c s ! 0 = takeWhile (\<lambda>x. x \<noteq> c) s"
  using hd_split_chr [of c s] by (simp add: hd_conv_nth)

lemma split_chr_no_sep: "c \<notin> set s \<Longrightarrow> split_chr c s = [s]"
  by (induction s) auto

lemma tl_split_chr:
  "tl (split_chr c s) = (if c \<in> set s then split_chr c (tl (dropWhile (\<lambda>x. x \<noteq> c) s)) else [])"
  by (induction s) (auto split: list.splits)

lemma split_chr_pieces: "x \<in> set (split_chr c s) \<Longrightarrow> c \<notin> set x"
proof (induction s arbitrary: x)
  case Nil
  then show ?case by simp
next
  case (Cons a s)
  show ?case
  proof (cases "a = c")
    case True
    with Cons show ?thesis by auto
  next
    case False
    obtain p ps where sp: "split_chr c s = p # ps"
      by (cases "split_chr c s") auto
    with Cons.prems False have "x = a # p \<or> x \<in> set ps" by simp
    then show ?thesis using Cons.IH [of p] Cons.IH [of x] sp False by auto
  qed
qed

lemma extract_name_eq:
  "extract_name data =
     (if CHR ''>'' \<in> set data
      then Inr (takeWhile (\<lambda>x. x \<noteq> CHR ''<'')
                 (takeWhile (\<lambda>x. x \<noteq> CHR ''>'') (tl (dropWhile (\<lambda>x. x \<noteq> CHR ''>'') data))))
      else Inl IndexError)"
proof (cases "CHR ''>'' \<in> set data")
  case False
  then show ?thesis by (simp add: extract_name_def subscript_def split_chr_no_sep)
next
  case True
  let ?r = "tl (dropWhile (\<lambda>x. x \<noteq> CHR ''>'') data)"
  have t: "tl (split_chr CHR ''>'' data) = split_chr CHR ''>'' ?r"
    using True by (simp add: tl_split_chr)
  obtain a as where sp: "split_chr CHR ''>'' data = a # as"
    by (cases "split_chr CHR ''>'' data") auto
  with t have as: "as = split_chr CHR ''>'' ?r" by simp
  then have "as \<noteq> []" by simp
  then have "1 < length (split_chr CHR ''>'' data)" using sp by (cases as) auto
  moreover have "split_chr CHR ''>'' data ! 1 = hd as" using sp \<open>as \<noteq> []\<close> by (cases as) auto
  ultimately show ?thesis
    using True as by (simp add: extract_name_def subscript_def hd_split_chr split_chr_nth0)
qed


lemma print_if_fs [simp]: "w_fs (print_if b s w) = w_fs w"
  by (simp add: print_if_def print_def)

lemma file_load_and_search_fs: "w_fs (snd (file_load_and_search os v fn w)) = w_fs w"
  by (simp add: file_load_and_search_def split: sum.splits prod.splits)

lemma file_load_and_search_token:
  "fst (file_load_and_search os v fn w) =
     (case try_scan os v fn (w_fs w) of Inl e \<Rightarrow> [] | Inr (s, msgs) \<Rightarrow> s)"
  by (simp add: file_load_and_search_def split: sum.splits prod.splits)

lemma main_loop_skip:
  assumes "fst (file_load_and_search os v fn w) = []"
  shows "\<exists>w'. w_fs w' = w_fs w \<and> main_loop os v (fn # fns) w = main_loop os v fns w'"
proof -
  obtain T w1 where r: "file_load_and_search os v fn w = (T, w1)"
    by (cases "file_load_and_search os v fn w")
  with assms have T: "T = []" by simp
  from r have "w_fs w1 = w_fs w" using file_load_and_search_fs [of os v fn w] by simp
  then have "w_fs (print_if v (''No customer information read from file '' @ fn) w1) = w_fs w"
    by simp
  moreover have "main_loop os v (fn # fns) w =
      main_loop os v fns (print_if v (''No customer information read from file '' @ fn) w1)"
    using r T by (simp add: main_loop_def)
  ultimately show ?thesis by blast
qed

lemma scan_lines_skip:
  "\<forall>l\<in>set pre. l \<noteq> [] \<and> scan_line v l = Next \<Longrightarrow>
   scan_lines v (map Inr pre @ rest) = scan_lines v rest"
  by (induction pre) auto

lemma scan_line_Next:
  "scan_line v l = Next \<longleftrightarrow> \<not> (str_in END_SEEK_MARKER l \<and> v) \<and> \<not> str_in CUST_ACCT_SEARCH_STR l"
  by (auto simp: scan_line_def split: sum.splits)

lemma search_marker_nonempty: "str_in CUST_ACCT_SEARCH_STR l \<Longrightarrow> l \<noteq> []"
  by (auto simp: CUST_ACCT_SEARCH_STR_def)

lemma stop_marker_has_gt: "str_in END_SEEK_MARKER l \<Longrightarrow> CHR ''>'' \<in> set l"
  using str_in_set [of END_SEEK_MARKER l] by (auto simp: END_SEEK_MARKER_def)

lemma scan_lines_empty_token:
  assumes "\<forall>l\<in>set pre. \<not> str_in CUST_ACCT_SEARCH_STR l"
    and "str_in CUST_ACCT_SEARCH_STR line" and "CHR ''>'' \<notin> set line"
  shows "case scan_lines v (map Inr pre @ Inr line # rest) of
           Inl e \<Rightarrow> True | Inr (s, msgs) \<Rightarrow> s = []"
  using assms(1)
proof (induction pre)
  case Nil
  have "\<not> str_in END_SEEK_MARKER line" using assms(3) stop_marker_has_gt by blast
  moreover have "line \<noteq> []" using assms(2) by (rule search_marker_nonempty)
  ultimately show ?case
    using assms(2,3) by (simp add: scan_line_def extract_name_eq)
next
  case (Cons l pre)
  then show ?case by (simp add: scan_line_def)
qed

section \<open>The scanner\<close>

lemmas run_defs = file_load_and_search_def try_scan_def flat_os_def flat_open_def scan_line_def
  extract_name_def subscript_def END_SEEK_MARKER_def CUST_ACCT_SEARCH_STR_def print_if_def
  print_def eol_def invoice_acme_def invoice_late_def invoice_adjacent_def invoice_nested_def
  invoice_binary_def invoice_bare_def token_between_def

text \<open>
  Claim C1 (the scanner stops at the first line holding the stop marker, whatever the
  verbose flag, and returns the empty string). The program does this in verbose mode only
  (\<open>stop_marker_honoured_when_verbose\<close> below). With the flag off, the \<open>break\<close> is not
  reached: a search line after the stop line still yields its token, and so does a line
  holding both markers.
\<close>

theorem stop_marker_ignored_when_quiet:
  "fst (file_load_and_search (flat_os Overwrite) False ''b.xml''
          \<lparr>w_fs = [(''b.xml'', invoice_late)], w_out = []\<rparr>) = ''BOB'' \<and>
   fst (file_load_and_search (flat_os Overwrite) False ''c.xml''
          \<lparr>w_fs = [(''c.xml'', [Inr (eol ''<Ref Customer Acct Number>X</ReferenceNumbers>'')])],
           w_out = []\<rparr>) = ''X''"
  by (simp add: run_defs)

lemma stop_marker_honoured_when_verbose:
  assumes "os_open os (w_fs w) fn = Inr (map Inr pre @ Inr line # rest)"
    and "\<forall>l\<in>set pre. l \<noteq> [] \<and> \<not> str_in CUST_ACCT_SEARCH_STR l \<and> \<not> str_in END_SEEK_MARKER l"
    and "str_in END_SEEK_MARKER line"
  shows "fst (file_load_and_search os True fn w) = []"
proof -
  have "\<forall>l\<in>set pre. l \<noteq> [] \<and> scan_line True l = Next"
    using assms(2) by (simp add: scan_line_Next)
  then have "scan_lines True (map Inr pre @ Inr line # rest) = scan_lines True (Inr line # rest)"
    by (rule scan_lines_skip)
  moreover have "line \<noteq> []" using assms(3) by (auto simp: END_SEEK_MARKER_def)
  ultimately show ?thesis
    using assms(1,3) by (simp add: file_load_and_search_token try_scan_def scan_line_def)
qed






text \<open>
  Claim C10. When the first line holding the search marker has no \<open>>\<close>, the scanner returns
  the empty string and the driver goes on with the remaining files, the filesystem
  unchanged; where the earlier lines let the scan reach that line, what is caught is the
  \<open>IndexError\<close> of the subscript.
\<close>

theorem marker_line_without_gt_is_skipped:
  assumes "os_open os (w_fs w) fn = Inr (map Inr pre @ Inr line # rest)"
    and "\<forall>l\<in>set pre. \<not> str_in CUST_ACCT_SEARCH_STR l"
    and "str_in CUST_ACCT_SEARCH_STR line"
    and "CHR ''>'' \<notin> set line"
  shows "fst (file_load_and_search os verbose fn w) = [] \<and>
         (\<exists>w'. w_fs w' = w_fs w \<and>
               main_loop os verbose (fn # fns) w = main_loop os verbose fns w') \<and>
         ((\<forall>l\<in>set pre. l \<noteq> [] \<and> \<not> (verbose \<and> str_in END_SEEK_MARKER l)) \<longrightarrow>
            try_scan os verbose fn (w_fs w) = Inl IndexError)"
proof -
  have "case scan_lines verbose (map Inr pre @ Inr line # rest) of
          Inl e \<Rightarrow> True | Inr (s, msgs) \<Rightarrow> s = []"
    using assms(2,3,4) by (rule scan_lines_empty_token)
  then have T: "fst (file_load_and_search os verbose fn w) = []"
    using assms(1) by (auto simp: file_load_and_search_token try_scan_def split: sum.splits)
  have I: "try_scan os verbose fn (w_fs w) = Inl IndexError"
    if "\<forall>l\<in>set pre. l \<noteq> [] \<and> \<not> (verbose \<and> str_in END_SEEK_MARKER l)"
  proof -
    have "\<forall>l\<in>set pre. l \<noteq> [] \<and> scan_line verbose l = Next"
      using that assms(2) by (auto simp: scan_line_Next)
    then have "scan_lines verbose (map Inr pre @ Inr line # rest) =
        scan_lines verbose (Inr line # rest)"
      by (rule scan_lines_skip)
    moreover have "line \<noteq> []" using assms(3) by (rule search_marker_nonempty)
    moreover have "\<not> str_in END_SEEK_MARKER line" using assms(4) stop_marker_has_gt by blast
    ultimately show ?thesis
      using assms(1,3,4) by (simp add: try_scan_def scan_line_def extract_name_eq)
  qed
  show ?thesis using T I main_loop_skip by blast
qed

text \<open>A file whose marker line has no tag at all.\<close>

theorem marker_line_without_gt_is_skipped_witness:
  "try_scan (flat_os Overwrite) False ''p.xml'' [(''p.xml'', invoice_bare)] = Inl IndexError \<and>
   fst (file_load_and_search (flat_os Overwrite) False ''p.xml''
          \<lparr>w_fs = [(''p.xml'', invoice_bare)], w_out = []\<rparr>) = [] \<and>
   (\<exists>w'. w_fs w' = [(''p.xml'', invoice_bare)] \<and>
      main_loop (flat_os Overwrite) False [''p.xml'']
          \<lparr>w_fs = [(''p.xml'', invoice_bare)], w_out = []\<rparr> =
      main_loop (flat_os Overwrite) False [] w')"
proof -
  let ?os = "flat_os Overwrite"
  let ?w = "\<lparr>w_fs = [(''p.xml'', invoice_bare)], w_out = []\<rparr>"
  let ?l = "eol ''Customer Acct Number: ACME''"
  have h1: "os_open ?os (w_fs ?w) ''p.xml'' = Inr (map Inr [eol ''Invoice''] @ Inr ?l # [])"
    by (simp add: run_defs)
  have h2: "\<forall>l\<in>set [eol ''Invoice'']. \<not> str_in CUST_ACCT_SEARCH_STR l"
    by (simp add: run_defs)
  have h3: "str_in CUST_ACCT_SEARCH_STR ?l" and h4: "CHR ''>'' \<notin> set ?l"
    by (simp_all add: run_defs)
  have h5: "\<forall>l\<in>set [eol ''Invoice'']. l \<noteq> [] \<and> \<not> (False \<and> str_in END_SEEK_MARKER l)"
    by (simp add: run_defs)
  from marker_line_without_gt_is_skipped [OF h1 h2 h3 h4, of False "[]"] h5
  show ?thesis by simp
qed

section \<open>Paths and the renamer\<close>

lemma str_in_trans: "str_in a b \<Longrightarrow> str_in b c \<Longrightarrow> str_in a c"
proof -
  assume "str_in a b" "str_in b c"
  then obtain p q p' q' where "b = p @ a @ q" "c = p' @ b @ q'"
    by (auto simp: str_in_iff)
  then have "c = (p' @ p) @ a @ (q @ q')" by simp
  then show ?thesis unfolding str_in_iff by blast
qed

lemma str_in_empty [simp]: "str_in [] s"
  by (induction s) auto

lemma split_chr_piece_in: "x \<in> set (split_chr c s) \<Longrightarrow> str_in x s"
proof (induction s arbitrary: x)
  case Nil
  then show ?case by simp
next
  case (Cons a s)
  show ?case
  proof (cases "a = c")
    case True
    with Cons.prems have "x = [] \<or> x \<in> set (split_chr c s)" by simp
    then show ?thesis using Cons.IH by auto
  next
    case False
    obtain p ps where sp: "split_chr c s = p # ps"
      by (cases "split_chr c s") auto
    with Cons.prems False have "x = a # p \<or> x \<in> set ps" by simp
    then show ?thesis
    proof
      assume x: "x = a # p"
      have "p = takeWhile (\<lambda>y. y \<noteq> c) s" using hd_split_chr [of c s] sp by simp
      then have "prefix p s" by (simp add: takeWhile_is_prefix)
      then show ?thesis using x by simp
    next
      assume "x \<in> set ps"
      then have "str_in x s" using Cons.IH sp by simp
      then show ?thesis by simp
    qed
  qed
qed

lemma str_in_suffix: "str_in x (drop n s) \<Longrightarrow> str_in x s"
proof -
  assume "str_in x (drop n s)"
  then obtain p q where "drop n s = p @ x @ q" by (auto simp: str_in_iff)
  then have "s = (take n s @ p) @ x @ q" by (metis append_take_drop_id append_assoc)
  then show ?thesis unfolding str_in_iff by blast
qed

lemma splitroot_rel: "\<exists>n. snd (splitroot s) = drop n s"
proof (cases "s \<noteq> [] \<and> hd s = CHR ''/''")
  case True
  have "dropWhile (\<lambda>c. c = CHR ''/'') s = drop (length (takeWhile (\<lambda>c. c = CHR ''/'') s)) s"
    by (rule dropWhile_eq_drop)
  then show ?thesis using True by (auto simp: splitroot_def Let_def)
next
  case False
  then have "snd (splitroot s) = drop 0 s" by (auto simp: splitroot_def)
  then show ?thesis by blast
qed

lemma Path_parts_pieces: "x \<in> set (p_parts (Path s)) \<Longrightarrow> x \<in> set (split_chr CHR ''/'' (snd (splitroot s)))"
  by (auto simp: Path_def split: prod.splits)

lemma path_name_in_path: "str_in (path_name (Path fn)) fn"
proof (cases "p_parts (Path fn) = []")
  case True
  then show ?thesis by (simp add: path_name_def)
next
  case False
  then have "path_name (Path fn) \<in> set (p_parts (Path fn))" by (simp add: path_name_def)
  then have "str_in (path_name (Path fn)) (snd (splitroot fn))"
    using Path_parts_pieces split_chr_piece_in by blast
  then show ?thesis using splitroot_rel [of fn] str_in_suffix by metis
qed

lemma path_name_no_sep: "CHR ''/'' \<notin> set (path_name (Path fn))"
proof (cases "p_parts (Path fn) = []")
  case True
  then show ?thesis by (simp add: path_name_def)
next
  case False
  then have "path_name (Path fn) \<in> set (p_parts (Path fn))" by (simp add: path_name_def)
  then show ?thesis using Path_parts_pieces split_chr_pieces by blast
qed

lemma stem_suffix_name: "name_stem n @ name_suffix n = n"
  by (simp add: name_stem_def name_suffix_def split: option.splits)

lemma new_basename_eq: "new_basename fn T = T @ ''_'' @ path_name (Path fn)"
  by (simp add: new_basename_def path_stem_def path_suffix_def stem_suffix_name)

lemma Path_single:
  assumes "s \<noteq> []" "CHR ''/'' \<notin> set s" "s \<noteq> ''.''"
  shows "Path s = \<lparr>p_root = [], p_parts = [s]\<rparr>"
proof -
  have "hd s \<in> set s" using assms(1) by simp
  then have "hd s \<noteq> CHR ''/''" using assms(2) by metis
  then have "splitroot s = ([], s)" by (simp add: splitroot_def)
  then show ?thesis using assms by (simp add: Path_def split_chr_no_sep)
qed

lemma rename_target_eq:
  assumes "T \<noteq> []" "CHR ''/'' \<notin> set T"
  shows "rename_target fn T =
    \<lparr>p_root = p_root (Path fn), p_parts = butlast (p_parts (Path fn)) @ [new_basename fn T]\<rparr>"
proof -
  let ?n = "new_basename fn T"
  have n: "?n = T @ ''_'' @ path_name (Path fn)" by (rule new_basename_eq)
  have "?n \<noteq> []" using n assms(1) by simp
  moreover have "CHR ''/'' \<notin> set ?n" using n assms(2) path_name_no_sep [of fn] by simp
  moreover have "length ?n \<ge> 2" using n assms(1) by (cases T) auto
  then have "?n \<noteq> ''.''" by auto
  ultimately have "Path ?n = \<lparr>p_root = [], p_parts = [?n]\<rparr>" by (rule Path_single)
  then show ?thesis by (simp add: rename_target_def path_join_def path_parent_def)
qed

lemma rfind_dot_append:
  "rfind_dot (a @ b) =
     (case rfind_dot b of Some i \<Rightarrow> Some (length a + i) | None \<Rightarrow> rfind_dot a)"
  by (induction a) (auto split: option.splits)

lemma name_suffix_prepend:
  assumes "name_suffix n \<noteq> []"
  shows "name_suffix (a @ n) = name_suffix n \<and> name_stem (a @ n) = a @ name_stem n"
proof -
  from assms obtain i where i: "rfind_dot n = Some i" "0 < i" "i < length n - 1"
    by (auto simp: name_suffix_def split: option.splits if_splits)
  then have "rfind_dot (a @ n) = Some (length a + i)" by (simp add: rfind_dot_append)
  then show ?thesis using i by (simp add: name_suffix_def name_stem_def)
qed

lemmas path_defs = Path_def splitroot_def path_str_def path_name_def path_parent_def
  name_suffix_def name_stem_def path_suffix_def path_stem_def path_join_def new_basename_def
  rename_target_def

lemmas rename_defs = file_rename_def flat_os_def flat_rename_def print_if_def print_def

text \<open>
  Claim C2, as amended. The renamer returns without touching the filesystem exactly when
  the token occurs in the path string \<open>fn\<close> as a whole, directory components included;
  otherwise its result is that of the one rename it asks for. A token that occurs in the
  basename occurs in \<open>fn\<close>, so such a file is left alone; so is a file whose directory
  component holds the token.
\<close>

theorem renamer_guard_tests_whole_path:
  "(str_in T fn \<longrightarrow>
      file_rename os v fn T w =
        Inr (print_if v (''Customer name already in filename, skipping '' @ fn) w)) \<and>
   (\<not> str_in T fn \<longrightarrow>
      file_rename os v fn T w =
        (case os_rename os (w_fs w) (path_str (Path fn)) (path_str (rename_target fn T)) of
           Inl e \<Rightarrow> Inl e
         | Inr fs' \<Rightarrow>
             Inr (print_if v (''new file name = '' @ new_basename fn T) (w\<lparr>w_fs := fs'\<rparr>)))) \<and>
   (str_in T (path_name (Path fn)) \<longrightarrow> str_in T fn)"
  using path_name_in_path [of fn] str_in_trans [of T "path_name (Path fn)" fn]
  by (simp add: file_rename_def)

text \<open>
  Claim C2 as stated fails for a token that occurs in the directory component only: the
  basename \<open>inv.xml\<close> does not hold \<open>ACME\<close>, and the renamer still returns with the file
  table as it was.
\<close>

theorem renamer_guard_counterexample:
  "\<not> str_in ''ACME'' (path_name (Path ''ACME/inv.xml'')) \<and>
   file_rename (flat_os Overwrite) False ''ACME/inv.xml'' ''ACME''
       \<lparr>w_fs = [(''ACME/inv.xml'', invoice_acme)], w_out = []\<rparr> =
     Inr \<lparr>w_fs = [(''ACME/inv.xml'', invoice_acme)], w_out = []\<rparr>"
  by (simp add: path_defs rename_defs)

text \<open>
  The amended claim at a path holding the token in its directory, at a path without the
  token (renamed), and at a token inside the basename.
\<close>

theorem renamer_guard_tests_whole_path_witness:
  "str_in ''ACME'' ''ACME/inv.xml'' \<and>
   file_rename (flat_os Overwrite) True ''ACME/inv.xml'' ''ACME''
       \<lparr>w_fs = [(''ACME/inv.xml'', invoice_acme)], w_out = []\<rparr> =
     Inr \<lparr>w_fs = [(''ACME/inv.xml'', invoice_acme)],
          w_out = [''Customer name already in filename, skipping ACME/inv.xml'']\<rparr> \<and>
   \<not> str_in ''ACME'' ''d/inv.xml'' \<and>
   file_rename (flat_os Overwrite) True ''d/inv.xml'' ''ACME''
       \<lparr>w_fs = [(''d/inv.xml'', invoice_acme)], w_out = []\<rparr> =
     Inr \<lparr>w_fs = [(''d/ACME_inv.xml'', invoice_acme)],
          w_out = [''new file name = ACME_inv.xml'']\<rparr> \<and>
   str_in ''inv'' (path_name (Path ''d/inv.xml'')) \<and> str_in ''inv'' ''d/inv.xml''"
proof -
  let ?os = "flat_os Overwrite"
  have a: "str_in ''ACME'' ''ACME/inv.xml''" by simp
  have b: "\<not> str_in ''ACME'' ''d/inv.xml''" by simp
  have c: "str_in ''inv'' (path_name (Path ''d/inv.xml''))" by (simp add: path_defs)
  from renamer_guard_tests_whole_path
         [where T = "''ACME''" and fn = "''ACME/inv.xml''" and os = ?os and v = True
            and w = "\<lparr>w_fs = [(''ACME/inv.xml'', invoice_acme)], w_out = []\<rparr>"]
       renamer_guard_tests_whole_path
         [where T = "''ACME''" and fn = "''d/inv.xml''" and os = ?os and v = True
            and w = "\<lparr>w_fs = [(''d/inv.xml'', invoice_acme)], w_out = []\<rparr>"]
       renamer_guard_tests_whole_path
         [where T = "''inv''" and fn = "''d/inv.xml''" and os = ?os and v = True
            and w = "\<lparr>w_fs = [(''d/inv.xml'', invoice_acme)], w_out = []\<rparr>"]
       a b c
  show ?thesis by (simp add: path_defs rename_defs)
qed

text \<open>
  Claim C9. With the empty token the renamer returns through its guard, whatever the
  filesystem primitives are, and the driver never calls the renamer with an empty token:
  its run is the same with any renamer that agrees on the non-empty tokens.
\<close>

theorem empty_token_is_never_renamed:
  "file_rename os verbose fn [] w =
     Inr (print_if verbose (''Customer name already in filename, skipping '' @ fn) w) \<and>
   ((\<forall>f T w'. T \<noteq> [] \<longrightarrow> rn f T w' = rn' f T w') \<longrightarrow>
      main_loop_with rn os verbose fns w0 = main_loop_with rn' os verbose fns w0)"
proof -
  have "main_loop_with rn os verbose fns w0 = main_loop_with rn' os verbose fns w0"
    if "\<forall>f T w'. T \<noteq> [] \<longrightarrow> rn f T w' = rn' f T w'"
    using that
  proof (induction fns arbitrary: w0)
    case Nil
    then show ?case by simp
  next
    case (Cons fn fns)
    then show ?case by (auto split: prod.splits sum.splits)
  qed
  then show ?thesis by (simp add: file_rename_def)
qed

text \<open>
  The driver on a file with adjacent tags and a file with a token, against a renamer that
  raises on the empty token.
\<close>

theorem empty_token_is_never_renamed_witness:
  "file_rename (flat_os Overwrite) True ''a.xml'' []
       \<lparr>w_fs = [(''a.xml'', invoice_acme)], w_out = []\<rparr> =
     Inr \<lparr>w_fs = [(''a.xml'', invoice_acme)],
          w_out = [''Customer name already in filename, skipping a.xml'']\<rparr> \<and>
   main_loop_with (file_rename (flat_os Overwrite) False) (flat_os Overwrite) False
       [''e.xml'', ''a.xml'']
       \<lparr>w_fs = [(''e.xml'', invoice_adjacent), (''a.xml'', invoice_acme)], w_out = []\<rparr> =
   main_loop_with
       (\<lambda>f T w. if T = [] then Inl OSError else file_rename (flat_os Overwrite) False f T w)
       (flat_os Overwrite) False [''e.xml'', ''a.xml'']
       \<lparr>w_fs = [(''e.xml'', invoice_adjacent), (''a.xml'', invoice_acme)], w_out = []\<rparr>"
proof -
  let ?os = "flat_os Overwrite"
  let ?rn = "file_rename ?os False"
  let ?rn' = "\<lambda>f T w. if T = [] then Inl OSError else file_rename ?os False f T w"
  have h: "\<forall>f T w'. T \<noteq> [] \<longrightarrow> ?rn f T w' = ?rn' f T w'" by simp
  from empty_token_is_never_renamed
         [where os = ?os and verbose = True and fn = "''a.xml''"
            and w = "\<lparr>w_fs = [(''a.xml'', invoice_acme)], w_out = []\<rparr>"]
  have 1: "file_rename ?os True ''a.xml'' [] \<lparr>w_fs = [(''a.xml'', invoice_acme)], w_out = []\<rparr> =
     Inr \<lparr>w_fs = [(''a.xml'', invoice_acme)],
          w_out = [''Customer name already in filename, skipping a.xml'']\<rparr>"
    by (simp add: print_if_def print_def)
  from empty_token_is_never_renamed
         [where os = ?os and verbose = False and rn = ?rn and rn' = ?rn'
            and fns = "[''e.xml'', ''a.xml'']"
            and ?w0.0 = "\<lparr>w_fs = [(''e.xml'', invoice_adjacent), (''a.xml'', invoice_acme)], w_out = []\<rparr>"] h
  have 2: "main_loop_with ?rn ?os False [''e.xml'', ''a.xml'']
       \<lparr>w_fs = [(''e.xml'', invoice_adjacent), (''a.xml'', invoice_acme)], w_out = []\<rparr> =
     main_loop_with ?rn' ?os False [''e.xml'', ''a.xml'']
       \<lparr>w_fs = [(''e.xml'', invoice_adjacent), (''a.xml'', invoice_acme)], w_out = []\<rparr>"
    by blast
  show ?thesis using 1 2 by blast
qed

text \<open>
  Claim C6, as amended. For a non-empty token without a path separator that occurs nowhere
  in the path string \<open>fn\<close>, the renamer asks for the rename of \<open>fn\<close> to the path with the
  same parent and the name made of the token, one underscore, the old stem and the old
  extension (the token and underscore before the old name); where the old extension is not
  empty, it is the extension of the new path, whose stem is the token, the underscore and
  the old stem.
\<close>

theorem rename_prepends_token:
  assumes "T \<noteq> []" and "\<not> str_in T fn" and "CHR ''/'' \<notin> set T"
  shows "file_rename os v fn T w =
           (case os_rename os (w_fs w) (path_str (Path fn)) (path_str (rename_target fn T)) of
              Inl e \<Rightarrow> Inl e
            | Inr fs' \<Rightarrow>
                Inr (print_if v (''new file name = '' @ new_basename fn T) (w\<lparr>w_fs := fs'\<rparr>))) \<and>
         path_parent (rename_target fn T) = path_parent (Path fn) \<and>
         path_name (rename_target fn T) = T @ ''_'' @ path_stem (Path fn) @ path_suffix (Path fn) \<and>
         path_name (rename_target fn T) = T @ ''_'' @ path_name (Path fn) \<and>
         (path_suffix (Path fn) \<noteq> [] \<longrightarrow>
            path_suffix (rename_target fn T) = path_suffix (Path fn) \<and>
            path_stem (rename_target fn T) = T @ ''_'' @ path_stem (Path fn))"
proof -
  note tgt = rename_target_eq [OF assms(1,3), of fn]
  have nm: "path_name (rename_target fn T) = new_basename fn T"
    by (simp add: tgt path_name_def)
  have par: "path_parent (rename_target fn T) = path_parent (Path fn)"
    by (simp add: tgt path_parent_def)
  have ext: "path_suffix (rename_target fn T) = path_suffix (Path fn) \<and>
      path_stem (rename_target fn T) = T @ ''_'' @ path_stem (Path fn)"
    if "path_suffix (Path fn) \<noteq> []"
    using that name_suffix_prepend [of "path_name (Path fn)" "T @ ''_''"]
    by (simp add: path_suffix_def path_stem_def nm new_basename_eq)
  have ss: "path_stem (Path fn) @ path_suffix (Path fn) = path_name (Path fn)"
    by (simp add: path_stem_def path_suffix_def stem_suffix_name)
  have run: "file_rename os v fn T w =
      (case os_rename os (w_fs w) (path_str (Path fn)) (path_str (rename_target fn T)) of
         Inl e \<Rightarrow> Inl e
       | Inr fs' \<Rightarrow>
           Inr (print_if v (''new file name = '' @ new_basename fn T) (w\<lparr>w_fs := fs'\<rparr>)))"
    using assms(2) by (simp add: file_rename_def)
  have nm2: "path_name (rename_target fn T) = T @ ''_'' @ path_name (Path fn)"
    using nm by (simp add: new_basename_eq)
  show ?thesis using run par nm2 ss ext by simp
qed

text \<open>
  Claim C6 as stated fails in three ways: a token in the directory component stops the
  rename although the basename does not hold it; a token with a separator moves the file
  to another parent; a token with a dot gives a file without extension an extension.
\<close>

theorem rename_prepends_token_counterexample:
  "\<not> str_in ''cust'' (path_name (Path ''cust/inv.xml'')) \<and>
   file_rename (flat_os Overwrite) False ''cust/inv.xml'' ''cust''
       \<lparr>w_fs = [(''cust/inv.xml'', invoice_acme)], w_out = []\<rparr> =
     Inr \<lparr>w_fs = [(''cust/inv.xml'', invoice_acme)], w_out = []\<rparr> \<and>
   \<not> str_in ''a/b'' (path_name (Path ''d/inv.xml'')) \<and>
   path_str (rename_target ''d/inv.xml'' ''a/b'') = ''d/a/b_inv.xml'' \<and>
   path_name (rename_target ''d/inv.xml'' ''a/b'') = ''b_inv.xml'' \<and>
   path_str (path_parent (rename_target ''d/inv.xml'' ''a/b'')) = ''d/a'' \<and>
   path_str (path_parent (Path ''d/inv.xml'')) = ''d'' \<and>
   \<not> str_in ''a.b'' (path_name (Path ''d/README'')) \<and>
   path_str (rename_target ''d/README'' ''a.b'') = ''d/a.b_README'' \<and>
   path_suffix (Path ''d/README'') = [] \<and>
   path_suffix (rename_target ''d/README'' ''a.b'') = ''.b_README''"
  by (simp add: path_defs rename_defs)

text \<open>
  The amended claim at \<open>d/inv.xml\<close> and the token \<open>ACME\<close>.
\<close>

theorem rename_prepends_token_witness:
  "''ACME'' \<noteq> [] \<and> \<not> str_in ''ACME'' ''d/inv.xml'' \<and> CHR ''/'' \<notin> set ''ACME'' \<and>
   file_rename (flat_os Overwrite) False ''d/inv.xml'' ''ACME''
       \<lparr>w_fs = [(''d/inv.xml'', invoice_acme)], w_out = []\<rparr> =
     Inr \<lparr>w_fs = [(''d/ACME_inv.xml'', invoice_acme)], w_out = []\<rparr> \<and>
   path_parent (rename_target ''d/inv.xml'' ''ACME'') = path_parent (Path ''d/inv.xml'') \<and>
   path_name (rename_target ''d/inv.xml'' ''ACME'') = ''ACME_inv.xml'' \<and>
   path_suffix (Path ''d/inv.xml'') = ''.xml'' \<and>
   path_suffix (rename_target ''d/inv.xml'' ''ACME'') = ''.xml'' \<and>
   path_stem (rename_target ''d/inv.xml'' ''ACME'') = ''ACME_inv''"
proof -
  have h1: "''ACME'' \<noteq> []" and h2: "\<not> str_in ''ACME'' ''d/inv.xml''"
    and h3: "CHR ''/'' \<notin> set ''ACME''"
    by simp_all
  have s: "path_suffix (Path ''d/inv.xml'') = ''.xml''" "path_stem (Path ''d/inv.xml'') = ''inv''"
    "path_name (Path ''d/inv.xml'') = ''inv.xml''"
    "path_str (Path ''d/inv.xml'') = ''d/inv.xml''"
    by (simp_all add: path_defs)
  have t: "path_str (rename_target ''d/inv.xml'' ''ACME'') = ''d/ACME_inv.xml''"
    by (simp add: path_defs)
  from rename_prepends_token [OF h1 h2 h3, where os = "flat_os Overwrite" and v = False
         and w = "\<lparr>w_fs = [(''d/inv.xml'', invoice_acme)], w_out = []\<rparr>"] s t
  show ?thesis by (simp add: flat_os_def flat_rename_def print_if_def)
qed

section \<open>The resolver\<close>

lemma flat_os_sel:
  "os_open (flat_os pol) = flat_open"
  "os_listdir (flat_os pol) = flat_listdir"
  "os_rename (flat_os pol) = flat_rename pol"
  "os_fnmatch (flat_os pol) = glob_match"
  by (simp_all add: flat_os_def)

lemma resolve_bare:
  "resolve_windows_path (flat_os Overwrite) False ''*.xml''
       \<lparr>w_fs = [(''a.xml'', invoice_acme)], w_out = []\<rparr> =
     Inr ([''.a.xml''], \<lparr>w_fs = [(''a.xml'', invoice_acme)], w_out = []\<rparr>)"
proof -
  have m: "path_stem (Path ''*.xml'') @ path_suffix (Path ''*.xml'') = ''*.xml''"
    by (simp add: path_defs)
  have c: "remove_all ''*.xml'' ''*.xml'' = []" by simp
  have l: "flat_listdir [(''a.xml'', invoice_acme)] ''.'' = Inr [''a.xml'']"
    by (simp add: flat_listdir_def)
  have r: "resolve_loop (flat_os Overwrite) False ''.'' ''*.xml'' [''a.xml''] [] w = ([''.a.xml''], w)"
    for w by (simp add: flat_os_sel print_if_def)
  show ?thesis
    unfolding resolve_windows_path_def Let_def m c
    by (simp add: flat_os_sel l r print_if_def)
qed

lemma resolve_dir:
  "resolve_windows_path (flat_os Overwrite) False ''d/*.xml''
       \<lparr>w_fs = [(''d/a.xml'', invoice_acme)], w_out = []\<rparr> =
     Inr ([''d/a.xml''], \<lparr>w_fs = [(''d/a.xml'', invoice_acme)], w_out = []\<rparr>)"
proof -
  have m: "path_stem (Path ''d/*.xml'') @ path_suffix (Path ''d/*.xml'') = ''*.xml''"
    by (simp add: path_defs)
  have c: "remove_all ''*.xml'' ''d/*.xml'' = ''d/''" by simp
  have l: "flat_listdir [(''d/a.xml'', invoice_acme)] ''d/'' = Inr [''a.xml'']"
    by (simp add: flat_listdir_def)
  have r: "resolve_loop (flat_os Overwrite) False ''d/'' ''*.xml'' [''a.xml''] [] w = ([''d/a.xml''], w)"
    for w by (simp add: flat_os_sel print_if_def)
  show ?thesis
    unfolding resolve_windows_path_def Let_def m c
    by (simp add: flat_os_sel l r print_if_def)
qed

lemmas flat_run = main_def read_cli_def main_loop_def file_load_and_search_def try_scan_def
  flat_os_sel flat_open_def flat_rename_def file_rename_def scan_line_def extract_name_def
  subscript_def END_SEEK_MARKER_def CUST_ACCT_SEARCH_STR_def print_if_def print_def eol_def
  invoice_acme_def invoice_late_def path_defs

text \<open>
  Claim C5 (every path the resolver gives is the directory, a separator and a matching
  child name, also when the directory is empty and stands for the current directory). For
  a wildcard with a directory the program does so. For a bare wildcard it sets the
  directory to a single dot and puts the child name right after it, without a separator:
  \<open>a.xml\<close> comes out as \<open>.a.xml\<close>, a file that does not exist, so that the run on
  \<open>*.xml\<close> renames nothing where the run on \<open>a.xml\<close> renames the file.
\<close>

theorem resolver_bare_wildcard_drops_separator:
  "resolve_windows_path (flat_os Overwrite) False ''*.xml''
       \<lparr>w_fs = [(''a.xml'', invoice_acme)], w_out = []\<rparr> =
     Inr ([''.a.xml''], \<lparr>w_fs = [(''a.xml'', invoice_acme)], w_out = []\<rparr>) \<and>
   resolve_windows_path (flat_os Overwrite) False ''d/*.xml''
       \<lparr>w_fs = [(''d/a.xml'', invoice_acme)], w_out = []\<rparr> =
     Inr ([''d/a.xml''], \<lparr>w_fs = [(''d/a.xml'', invoice_acme)], w_out = []\<rparr>) \<and>
   main (flat_os Overwrite) [''*.xml''] False [(''a.xml'', invoice_acme)] =
     (Exit 0, \<lparr>w_fs = [(''a.xml'', invoice_acme)], w_out = []\<rparr>) \<and>
   main (flat_os Overwrite) [''a.xml''] False [(''a.xml'', invoice_acme)] =
     (Exit 0, \<lparr>w_fs = [(''ACME_a.xml'', invoice_acme)], w_out = []\<rparr>)"
proof -
  let ?os = "flat_os Overwrite"
  let ?w = "\<lparr>w_fs = [(''a.xml'', invoice_acme)], w_out = []\<rparr>"
  have rc: "read_cli ?os [''*.xml''] False ?w = Inr ([''.a.xml''], ?w)"
    by (simp add: read_cli_def resolve_bare)
  have lp: "main_loop ?os False [''.a.xml''] ?w = (None, ?w)"
    by (simp add: main_loop_def file_load_and_search_def try_scan_def flat_os_sel flat_open_def
        print_if_def)
  have m1: "main ?os [''*.xml''] False [(''a.xml'', invoice_acme)] = (Exit 0, ?w)"
    by (simp add: main_def rc lp print_if_def)
  have m2: "main ?os [''a.xml''] False [(''a.xml'', invoice_acme)] =
     (Exit 0, \<lparr>w_fs = [(''ACME_a.xml'', invoice_acme)], w_out = []\<rparr>)"
    by (simp add: flat_run)
  show ?thesis using resolve_bare resolve_dir m1 m2 by blast
qed

section \<open>The driver\<close>

lemma main_loop_with_append:
  "main_loop_with rn os v (xs @ ys) w =
     (case main_loop_with rn os v xs w of
        (Some e, w') \<Rightarrow> (Some e, w')
      | (None, w') \<Rightarrow> main_loop_with rn os v ys w')"
  by (induction xs arbitrary: w) (auto split: prod.splits sum.splits option.splits)

text \<open>
  Claim C4, as amended. A rename failure on one file ends the batch, whether the file list
  was given as it is or came out of the one wildcard: when the files before \<open>fn\<close> in the
  list \<open>read_cli\<close> returns are processed without exception, the scanner finds a token in
  \<open>fn\<close> and the renamer raises, the process ends with that exception uncaught instead of
  exit status 0, in the world the scanner left: the driver has printed nothing about the
  failure and no later file is looked at.
\<close>

theorem rename_failure_aborts_batch:
  assumes "read_cli os files v \<lparr>w_fs = fs0, w_out = []\<rparr> = Inr (pre @ fn # fns, w00)"
    and "main_loop os v pre
           (if v then w00\<lparr>w_out := w_out w00 @ [CHR 0x0A # ''Files to be parsed:'']
                                     @ map (\<lambda>f. CHR 0x09 # f) (pre @ fn # fns)\<rparr>
            else w00) = (None, w)"
    and "file_load_and_search os v fn w = (T, w1)"
    and "T \<noteq> []"
    and "file_rename os v fn T w1 = Inl e"
  shows "main os files v fs0 = (Uncaught e, w1)"
proof -
  let ?w0 = "if v then w00\<lparr>w_out := w_out w00 @ [CHR 0x0A # ''Files to be parsed:'']
                                     @ map (\<lambda>f. CHR 0x09 # f) (pre @ fn # fns)\<rparr>
            else w00"
  have step: "main_loop os v (fn # fns) w = (Some e, w1)"
    using assms(3,4,5) by (simp add: main_loop_def)
  have "main_loop os v (pre @ fn # fns) ?w0 = (Some e, w1)"
    using assms(2) step unfolding main_loop_def
    by (simp add: main_loop_with_append)
  then show ?thesis using assms(1) by (cases v) (simp_all add: main_def)
qed

text \<open>
  Claim C4 as stated fails where a rename fails: with a destination that exists on a
  platform that refuses it, the run on \<open>a.xml\<close> and \<open>b.xml\<close> ends with the exception and
  \<open>b.xml\<close>, which a run of its own renames, keeps its name.
\<close>

theorem rename_failure_counterexample:
  "main (flat_os Refuse) [''a.xml'', ''b.xml''] False
       [(''a.xml'', invoice_acme), (''ACME_a.xml'', invoice_acme), (''b.xml'', invoice_late)] =
     (Uncaught OSError,
      \<lparr>w_fs = [(''a.xml'', invoice_acme), (''ACME_a.xml'', invoice_acme), (''b.xml'', invoice_late)],
       w_out = []\<rparr>) \<and>
   main (flat_os Refuse) [''b.xml''] False
       [(''a.xml'', invoice_acme), (''ACME_a.xml'', invoice_acme), (''b.xml'', invoice_late)] =
     (Exit 0,
      \<lparr>w_fs = [(''a.xml'', invoice_acme), (''ACME_a.xml'', invoice_acme),
               (''BOB_b.xml'', invoice_late)],
       w_out = []\<rparr>)"
  by (simp add: flat_run)

text \<open>
  The amended claim in verbose mode, on a file without token, a file whose destination
  exists and a third file; and on a wildcard whose first match has a destination that
  exists.
\<close>

theorem rename_failure_aborts_batch_witness:
  "main (flat_os Refuse) [''e.xml'', ''a.xml'', ''b.xml''] True
       [(''e.xml'', invoice_adjacent), (''a.xml'', invoice_acme), (''ACME_a.xml'', invoice_acme),
        (''b.xml'', invoice_acme)] =
     (Uncaught OSError,
      \<lparr>w_fs = [(''e.xml'', invoice_adjacent), (''a.xml'', invoice_acme),
               (''ACME_a.xml'', invoice_acme), (''b.xml'', invoice_acme)],
       w_out = [CHR 0x0A # ''Files to be parsed:'', CHR 0x09 # ''e.xml'', CHR 0x09 # ''a.xml'',
                CHR 0x09 # ''b.xml'', ''Customer Name Found: '',
                ''No customer information read from file e.xml'',
                ''Customer Name Found: ACME'']\<rparr>) \<and>
   main (flat_os Refuse) [''d/*.xml''] False
       [(''d/a.xml'', invoice_acme), (''d/ACME_a.xml'', invoice_acme), (''d/b.xml'', invoice_late)] =
     (Uncaught OSError,
      \<lparr>w_fs = [(''d/a.xml'', invoice_acme), (''d/ACME_a.xml'', invoice_acme),
               (''d/b.xml'', invoice_late)],
       w_out = []\<rparr>)"
proof -
  let ?os = "flat_os Refuse"
  let ?tab = "[(''e.xml'', invoice_adjacent), (''a.xml'', invoice_acme),
               (''ACME_a.xml'', invoice_acme), (''b.xml'', invoice_acme)]"
  let ?files = "[''e.xml'', ''a.xml'', ''b.xml'']"
  let ?wz = "\<lparr>w_fs = ?tab, w_out = []\<rparr>"
  let ?w = "\<lparr>w_fs = ?tab,
       w_out = [CHR 0x0A # ''Files to be parsed:'', CHR 0x09 # ''e.xml'', CHR 0x09 # ''a.xml'',
                CHR 0x09 # ''b.xml'', ''Customer Name Found: '',
                ''No customer information read from file e.xml'']\<rparr>"
  let ?w1 = "\<lparr>w_fs = ?tab,
       w_out = [CHR 0x0A # ''Files to be parsed:'', CHR 0x09 # ''e.xml'', CHR 0x09 # ''a.xml'',
                CHR 0x09 # ''b.xml'', ''Customer Name Found: '',
                ''No customer information read from file e.xml'',
                ''Customer Name Found: ACME'']\<rparr>"
  have h1: "read_cli ?os ?files True \<lparr>w_fs = ?tab, w_out = []\<rparr> =
      Inr ([''e.xml''] @ ''a.xml'' # [''b.xml''], ?wz)"
    by (simp add: read_cli_def)
  have h3: "main_loop ?os True [''e.xml'']
      (if True then ?wz\<lparr>w_out := w_out ?wz @ [CHR 0x0A # ''Files to be parsed:'']
                                     @ map (\<lambda>f. CHR 0x09 # f) ([''e.xml''] @ ''a.xml'' # [''b.xml''])\<rparr>
       else ?wz) = (None, ?w)"
    by (simp add: flat_run invoice_adjacent_def)
  have h4: "file_load_and_search ?os True ''a.xml'' ?w = (''ACME'', ?w1)"
    by (simp add: flat_run invoice_adjacent_def)
  have h5: "''ACME'' \<noteq> []" by simp
  have h6: "file_rename ?os True ''a.xml'' ''ACME'' ?w1 = Inl OSError"
    by (simp add: flat_run)
  note lit = rename_failure_aborts_batch [OF h1 h3 h4 h5 h6]
  let ?tabd = "[(''d/a.xml'', invoice_acme), (''d/ACME_a.xml'', invoice_acme),
                (''d/b.xml'', invoice_late)]"
  let ?wd = "\<lparr>w_fs = ?tabd, w_out = []\<rparr>"
  have m: "path_stem (Path ''d/*.xml'') @ path_suffix (Path ''d/*.xml'') = ''*.xml''"
    by (simp add: path_defs)
  have c: "remove_all ''*.xml'' ''d/*.xml'' = ''d/''" by simp
  have l: "flat_listdir ?tabd ''d/'' = Inr [''a.xml'', ''ACME_a.xml'', ''b.xml'']"
    by (simp add: flat_listdir_def)
  have r: "resolve_loop ?os False ''d/'' ''*.xml'' [''a.xml'', ''ACME_a.xml'', ''b.xml''] [] ?wd =
      ([''d/a.xml'', ''d/ACME_a.xml'', ''d/b.xml''], ?wd)"
    by (simp add: flat_os_sel print_if_def)
  have rw: "resolve_windows_path ?os False ''d/*.xml'' ?wd =
      Inr ([''d/a.xml'', ''d/ACME_a.xml'', ''d/b.xml''], ?wd)"
    unfolding resolve_windows_path_def Let_def m c
    by (simp add: flat_os_sel l r print_if_def)
  have d1: "read_cli ?os [''d/*.xml''] False \<lparr>w_fs = ?tabd, w_out = []\<rparr> =
      Inr ([] @ ''d/a.xml'' # [''d/ACME_a.xml'', ''d/b.xml''], ?wd)"
    by (simp add: read_cli_def rw)
  have d3: "main_loop ?os False []
      (if False then ?wd\<lparr>w_out := w_out ?wd @ [CHR 0x0A # ''Files to be parsed:'']
            @ map (\<lambda>f. CHR 0x09 # f) ([] @ ''d/a.xml'' # [''d/ACME_a.xml'', ''d/b.xml''])\<rparr>
       else ?wd) = (None, ?wd)"
    by (simp add: main_loop_def)
  have d4: "file_load_and_search ?os False ''d/a.xml'' ?wd = (''ACME'', ?wd)"
    by (simp add: flat_run)
  have d6: "file_rename ?os False ''d/a.xml'' ''ACME'' ?wd = Inl OSError"
    by (simp add: flat_run)
  note wild = rename_failure_aborts_batch [OF d1 d3 d4 h5 d6]
  show ?thesis using lit wild by simp
qed

text \<open>
  Claim C7. When the scan of a file raises (\<open>open\<close> fails, a \<open>readline\<close> fails), the scanner
  returns the empty string and leaves the filesystem alone; the file is not renamed, and
  the driver goes on with the remaining files in the world that differs from the one
  before by the trace lines only. The next file is then processed as usual: when the
  scanner finds a token in it, the renamer is run on it, and after a successful rename
  the driver goes on from the renamed filesystem, while an exception of the renamer is
  the one that ends the run.
\<close>

theorem scan_failure_is_skipped:
  assumes "try_scan os verbose fn (w_fs w) = Inl e"
  shows "fst (file_load_and_search os verbose fn w) = [] \<and>
         w_fs (snd (file_load_and_search os verbose fn w)) = w_fs w \<and>
         (\<exists>w'. w_fs w' = w_fs w \<and>
               main_loop os verbose (fn # fns) w = main_loop os verbose fns w') \<and>
         (let ws = print_if verbose (''No customer information read from file '' @ fn)
                     (print_if verbose ''Customer Name Found: ''
                        (print_if verbose (''bad filename '' @ fn @ '', skipping'') w))
          in main_loop os verbose (fn # fns) w = main_loop os verbose fns ws \<and>
             (\<forall>fn2 T w1.
                file_load_and_search os verbose fn2 ws = (T, w1) \<and> T \<noteq> [] \<longrightarrow>
                  (\<forall>w2. file_rename os verbose fn2 T w1 = Inr w2 \<longrightarrow>
                     main_loop os verbose (fn # fn2 # rest) w = main_loop os verbose rest w2 \<and>
                     main_loop os verbose [fn, fn2] w = (None, w2)) \<and>
                  (\<forall>e2. file_rename os verbose fn2 T w1 = Inl e2 \<longrightarrow>
                     main_loop os verbose (fn # fn2 # rest) w = (Some e2, w1))))"
proof -
  let ?ws = "print_if verbose (''No customer information read from file '' @ fn)
               (print_if verbose ''Customer Name Found: ''
                  (print_if verbose (''bad filename '' @ fn @ '', skipping'') w))"
  have T: "fst (file_load_and_search os verbose fn w) = []"
    using assms by (simp add: file_load_and_search_token)
  have r: "file_load_and_search os verbose fn w =
      ([], print_if verbose ''Customer Name Found: ''
             (print_if verbose (''bad filename '' @ fn @ '', skipping'') w))"
    using assms by (simp add: file_load_and_search_def)
  have skip: "main_loop os verbose (fn # xs) w = main_loop os verbose xs ?ws" for xs
    using r by (simp add: main_loop_def)
  have nxt: "main_loop os verbose (fn # fn2 # xs) w = main_loop os verbose xs w2"
    if "file_load_and_search os verbose fn2 ?ws = (T, w1)" "T \<noteq> []"
      "file_rename os verbose fn2 T w1 = Inr w2" for fn2 T w1 w2 xs
    using that skip [of "fn2 # xs"] by (simp add: main_loop_def)
  have nxt_end: "main_loop os verbose [fn, fn2] w = (None, w2)"
    if "file_load_and_search os verbose fn2 ?ws = (T, w1)" "T \<noteq> []"
      "file_rename os verbose fn2 T w1 = Inr w2" for fn2 T w1 w2
    using nxt [OF that, of "[]"] by (simp add: main_loop_def)
  have fail: "main_loop os verbose (fn # fn2 # xs) w = (Some e2, w1)"
    if "file_load_and_search os verbose fn2 ?ws = (T, w1)" "T \<noteq> []"
      "file_rename os verbose fn2 T w1 = Inl e2" for fn2 T w1 e2 xs
    using that skip [of "fn2 # xs"] by (simp add: main_loop_def)
  have a: "\<exists>w'. w_fs w' = w_fs w \<and>
      main_loop os verbose (fn # fns) w = main_loop os verbose fns w'"
    using T by (rule main_loop_skip)
  have b: "w_fs (snd (file_load_and_search os verbose fn w)) = w_fs w"
    by (rule file_load_and_search_fs)
  have c: "\<forall>fn2 T w1.
      file_load_and_search os verbose fn2 ?ws = (T, w1) \<and> T \<noteq> [] \<longrightarrow>
        (\<forall>w2. file_rename os verbose fn2 T w1 = Inr w2 \<longrightarrow>
           main_loop os verbose (fn # fn2 # rest) w = main_loop os verbose rest w2 \<and>
           main_loop os verbose [fn, fn2] w = (None, w2)) \<and>
        (\<forall>e2. file_rename os verbose fn2 T w1 = Inl e2 \<longrightarrow>
           main_loop os verbose (fn # fn2 # rest) w = (Some e2, w1))"
    using nxt nxt_end fail by blast
  show ?thesis unfolding Let_def using T b a skip [of fns] c by blast
qed

text \<open>
  A missing file and a file that is not text, each followed by a file with a token: the
  failing file is passed over and the next one is renamed.
\<close>

theorem scan_failure_is_skipped_witness:
  "try_scan (flat_os Overwrite) True ''gone.xml''
       [(''bin.xml'', invoice_binary), (''a.xml'', invoice_acme)] = Inl OSError \<and>
   try_scan (flat_os Overwrite) False ''bin.xml''
       [(''bin.xml'', invoice_binary), (''a.xml'', invoice_acme)] = Inl UnicodeDecodeError \<and>
   main_loop (flat_os Overwrite) True [''gone.xml'', ''a.xml'']
       \<lparr>w_fs = [(''bin.xml'', invoice_binary), (''a.xml'', invoice_acme)], w_out = []\<rparr> =
     (None,
      \<lparr>w_fs = [(''bin.xml'', invoice_binary), (''ACME_a.xml'', invoice_acme)],
       w_out = [''bad filename gone.xml, skipping'', ''Customer Name Found: '',
                ''No customer information read from file gone.xml'',
                ''Customer Name Found: ACME'', ''new file name = ACME_a.xml'']\<rparr>) \<and>
   main_loop (flat_os Overwrite) False [''bin.xml'', ''a.xml'']
       \<lparr>w_fs = [(''bin.xml'', invoice_binary), (''a.xml'', invoice_acme)], w_out = []\<rparr> =
     (None,
      \<lparr>w_fs = [(''bin.xml'', invoice_binary), (''ACME_a.xml'', invoice_acme)], w_out = []\<rparr>)"
proof -
  let ?os = "flat_os Overwrite"
  let ?tab = "[(''bin.xml'', invoice_binary), (''a.xml'', invoice_acme)]"
  let ?w = "\<lparr>w_fs = ?tab, w_out = []\<rparr>"
  let ?wsT = "print_if True (''No customer information read from file '' @ ''gone.xml'')
               (print_if True ''Customer Name Found: ''
                  (print_if True (''bad filename '' @ ''gone.xml'' @ '', skipping'') ?w))"
  let ?w1T = "\<lparr>w_fs = ?tab,
       w_out = [''bad filename gone.xml, skipping'', ''Customer Name Found: '',
                ''No customer information read from file gone.xml'',
                ''Customer Name Found: ACME'']\<rparr>"
  let ?w2T = "\<lparr>w_fs = [(''bin.xml'', invoice_binary), (''ACME_a.xml'', invoice_acme)],
       w_out = [''bad filename gone.xml, skipping'', ''Customer Name Found: '',
                ''No customer information read from file gone.xml'',
                ''Customer Name Found: ACME'', ''new file name = ACME_a.xml'']\<rparr>"
  let ?w2F = "\<lparr>w_fs = [(''bin.xml'', invoice_binary), (''ACME_a.xml'', invoice_acme)],
       w_out = []\<rparr>"
  have g: "try_scan ?os True ''gone.xml'' (w_fs ?w) = Inl OSError"
    by (simp add: flat_run invoice_binary_def)
  have b: "try_scan ?os False ''bin.xml'' (w_fs ?w) = Inl UnicodeDecodeError"
    by (simp add: flat_run invoice_binary_def)
  have sT: "file_load_and_search ?os True ''a.xml'' ?wsT = (''ACME'', ?w1T)"
    by (simp add: flat_run invoice_binary_def)
  have rT: "file_rename ?os True ''a.xml'' ''ACME'' ?w1T = Inr ?w2T"
    by (simp add: flat_run)
  have sF: "file_load_and_search ?os False ''a.xml''
      (print_if False (''No customer information read from file '' @ ''bin.xml'')
         (print_if False ''Customer Name Found: ''
            (print_if False (''bad filename '' @ ''bin.xml'' @ '', skipping'') ?w))) =
      (''ACME'', ?w)"
    by (simp add: flat_run invoice_binary_def)
  have rF: "file_rename ?os False ''a.xml'' ''ACME'' ?w = Inr ?w2F"
    by (simp add: flat_run)
  have n: "''ACME'' \<noteq> []" by simp
  from scan_failure_is_skipped [OF g, where fns = "[]" and rest = "[]"] sT rT n
  have 1: "main_loop ?os True [''gone.xml'', ''a.xml''] ?w = (None, ?w2T)"
    unfolding Let_def by blast
  from scan_failure_is_skipped [OF b, where fns = "[]" and rest = "[]"] sF rF n
  have 2: "main_loop ?os False [''bin.xml'', ''a.xml''] ?w = (None, ?w2F)"
    unfolding Let_def by blast
  show ?thesis using g b 1 2 by simp
qed













end
